theory Spec2Isabelle
  imports Main
begin

section \<open>Worker pool configuration (worker/config.go)\<close>

text \<open>
  \<^verbatim>\<open>PoolConfig\<close> is a plain struct of three strings and three Go \<^verbatim>\<open>int\<close>s. No
  arithmetic is done on the integers, so they are modelled as \<^typ>\<open>int\<close>.
\<close>

record PoolConfig =
  Name :: string
  PrometheusPrefix :: string
  MinWorkers :: int
  MaxWorkers :: int
  ResizingStrategy :: string
  MaxQueuedJobs :: int

text \<open>
  \<^verbatim>\<open>DefaultPoolConfig\<close> returns a pointer to a freshly built struct literal; the model
  is the struct value it points to.
\<close>

definition DefaultPoolConfig :: PoolConfig where
  "DefaultPoolConfig =
     \<lparr> Name = ''default'',
       PrometheusPrefix = ''default'',
       MinWorkers = 4,
       MaxWorkers = 32,
       ResizingStrategy = ''balanced'',
       MaxQueuedJobs = 100 \<rparr>"

text \<open>
  Go's zero value of the struct: what a field holds when a constructor does not set it.
\<close>

definition PoolConfig_zero :: PoolConfig where
  "PoolConfig_zero =
     \<lparr> Name = [], PrometheusPrefix = [], MinWorkers = 0, MaxWorkers = 0,
       ResizingStrategy = [], MaxQueuedJobs = 0 \<rparr>"

text \<open>
  A Go panic, carrying the value it was raised with. A function that may panic returns
  \<open>panic + 'a\<close>, with \<open>Inl\<close> for the panic.
\<close>

datatype panic = Panic string

text \<open>
  The package \<^verbatim>\<open>pond\<close> is not part of the repository. \<^verbatim>\<open>ResizerFromString\<close> only
  chooses which of its three constructors to call, so the package is a parameter: each
  constructor is a call that returns a policy of type \<open>'p\<close> and may change the
  world \<open>'w\<close> around it (it allocates).
\<close>

record ('p, 'w) pond =
  Eager :: "'w \<Rightarrow> 'p \<times> 'w"
  Lazy :: "'w \<Rightarrow> 'p \<times> 'w"
  Balanced :: "'w \<Rightarrow> 'p \<times> 'w"

text \<open>
  \<^verbatim>\<open>ResizerFromString\<close>: a string switch with a panicking default. Go compares
  strings byte by byte, as list equality on \<^typ>\<open>string\<close> does.
\<close>

definition ResizerFromString ::
  "('p, 'w) pond \<Rightarrow> string \<Rightarrow> 'w \<Rightarrow> panic + 'p \<times> 'w" where
  "ResizerFromString pond name w =
     (if name = ''eager'' then Inr (Eager pond w)
      else if name = ''lazy'' then Inr (Lazy pond w)
      else if name = ''balanced'' then Inr (Balanced pond w)
      else Inl (Panic ''invalid resizer name''))"

text \<open>
  The constructors as \<^verbatim>\<open>pond\<close> version 1 defines them (\<^verbatim>\<open>resizer.go\<close>):
  \<^verbatim>\<open>RatedResizer(rate)\<close> raises a rate below 1 to 1 and returns a pointer to a new
  \<^verbatim>\<open>ratedResizer{rate: uint64(rate)}\<close>; \<^verbatim>\<open>Eager\<close> is \<^verbatim>\<open>RatedResizer(1)\<close>,
  \<^verbatim>\<open>Balanced\<close> is \<^verbatim>\<open>RatedResizer(maxProcs / 2)\<close> and \<^verbatim>\<open>Lazy\<close> is
  \<^verbatim>\<open>RatedResizer(maxProcs)\<close>, with \<^verbatim>\<open>maxProcs = runtime.GOMAXPROCS(0)\<close>, which is
  at least 1. The heap is the list of the resizers allocated so far, and a pointer is a
  position in it: every call allocates at the next position.
\<close>

record ratedResizer =
  rate :: nat
  hits :: nat

definition RatedResizer :: "int \<Rightarrow> ratedResizer list \<Rightarrow> nat \<times> ratedResizer list" where
  "RatedResizer r heap =
     (length heap, heap @ [\<lparr> rate = nat (if r < 1 then 1 else r), hits = 0 \<rparr>])"

definition pond_v1 :: "nat \<Rightarrow> (nat, ratedResizer list) pond" where
  "pond_v1 maxProcs =
     \<lparr> Eager = RatedResizer 1,
       Lazy = RatedResizer (int maxProcs),
       Balanced = RatedResizer (int maxProcs div 2) \<rparr>"



section \<open>HTTP server (package server)\<close>

subsection \<open>Values of the Go runtime, of \<^verbatim>\<open>net/http\<close> and of the logger\<close>

text \<open>
  Go error values. \<^verbatim>\<open>errors.Is\<close> walks the chain of wrapped errors and compares each
  link with the target.
\<close>

datatype go_error =
    ErrServerClosed
  | DeadlineExceeded
  | ErrorString string
  | Wrap string go_error

fun errors_Is :: "go_error \<Rightarrow> go_error \<Rightarrow> bool" where
  "errors_Is (Wrap msg err) target = (Wrap msg err = target \<or> errors_Is err target)"
| "errors_Is err target = (err = target)"

text \<open>
  The injected logger is a capability with \<^verbatim>\<open>Info\<close> and \<^verbatim>\<open>Error\<close>, each taking a
  message and key-value pairs. The model keeps the lines it has received, oldest first.
\<close>

datatype log_value = StringValue string | ErrorValue go_error

datatype log_entry =
    Info string "(string \<times> log_value) list"
  | Error string "(string \<times> log_value) list"

text \<open>\<^verbatim>\<open>time.Duration\<close> counts nanoseconds; a point in time is nanoseconds on the clock.\<close>

definition Second :: int where
  "Second = 1000000000"

definition DefaultReadHeaderTimeout :: int where
  "DefaultReadHeaderTimeout = 10 * Second"

text \<open>The panic of the Go runtime when a nil pointer is dereferenced.\<close>

definition nil_dereference :: panic where
  "nil_dereference = Panic ''runtime error: invalid memory address or nil pointer dereference''"

text \<open>
  \<^verbatim>\<open>http.Server\<close>, as far as the wrapper uses it: the three fields \<^verbatim>\<open>Start\<close>
  sets, and the deadlines of the \<^verbatim>\<open>Shutdown\<close> requests the server has received.
\<close>

record 'h http_Server =
  Addr :: string
  ServerHandler :: 'h
  ReadHeaderTimeout :: int
  shutdown_deadlines :: "int list"

text \<open>
  \<^verbatim>\<open>http.ServeMux\<close> is its registration table: the patterns with their handlers, in
  the order of registration. \<^verbatim>\<open>(*ServeMux).Handle\<close> panics on an empty pattern and on
  a nil handler; then on a pattern it cannot parse; then on a pattern that conflicts with
  a registered one; otherwise it adds the entry. When it panics it has not touched the
  table. Which patterns parse, which pairs conflict and what the panics say differs
  between the mux before Go 1.22 and the one since, and the repository does not fix the
  Go version, so these three are parameters.
\<close>

record mux_rules =
  malformed :: "string \<Rightarrow> string option"
  conflictsWith :: "string \<Rightarrow> string \<Rightarrow> bool"
  conflict_text :: "string \<Rightarrow> string \<Rightarrow> string"

definition ServeMux_Handle ::
  "mux_rules \<Rightarrow> (string \<times> 'h) list \<Rightarrow> string \<Rightarrow> 'h option
     \<Rightarrow> panic option \<times> (string \<times> 'h) list" where
  "ServeMux_Handle rules m pattern handler =
     (if pattern = [] then (Some (Panic ''http: invalid pattern''), m)
      else case handler of
        None \<Rightarrow> (Some (Panic ''http: nil handler''), m)
      | Some h \<Rightarrow>
          (case malformed rules pattern of
             Some msg \<Rightarrow> (Some (Panic msg), m)
           | None \<Rightarrow>
               (case find (\<lambda>(q, _). conflictsWith rules pattern q) m of
                  Some (q, _) \<Rightarrow> (Some (Panic (conflict_text rules pattern q)), m)
                | None \<Rightarrow> (None, m @ [(pattern, h)]))))"

text \<open>
  The mux before Go 1.22: every non-empty pattern is accepted, two patterns conflict
  when they are the same string, and the panic says "http: multiple registrations for"
  and the pattern.
\<close>

definition ServeMux_before_1_22 :: mux_rules where
  "ServeMux_before_1_22 =
     \<lparr> malformed = (\<lambda>pattern. None),
       conflictsWith = (\<lambda>pattern q. pattern = q),
       conflict_text = (\<lambda>pattern q. ''http: multiple registrations for '' @ pattern) \<rparr>"

text \<open>The verb \<^verbatim>\<open>%d\<close> of \<^verbatim>\<open>fmt.Sprintf\<close> on a non-negative integer.\<close>

function decimal :: "nat \<Rightarrow> string" where
  "decimal n =
     (if n < 10 then [''0123456789'' ! n]
      else decimal (n div 10) @ [''0123456789'' ! (n mod 10)])"
  by pat_completeness auto
termination
  by (relation "measure id") auto

declare decimal.simps [simp del]


subsection \<open>The server\<close>

text \<open>
  Modelled from the spec: the struct \<^verbatim>\<open>Config\<close> of package \<^verbatim>\<open>server\<close> is not among
  the source files. \<^verbatim>\<open>Start\<close> reads \<^verbatim>\<open>cfg.HTTP.Host\<close> and \<^verbatim>\<open>cfg.HTTP.Port\<close>;
  the spec gives a host string and a port between 1 and 65535.
\<close>

record HTTPConfig =
  Host :: string
  Port :: nat

record Config =
  HTTP :: HTTPConfig

text \<open>
  \<^verbatim>\<open>Handler\<close>: a path and the \<^verbatim>\<open>http.Handler\<close> for it (\<open>None\<close> is a nil interface).
  \<^verbatim>\<open>RegisterHandler\<close> takes a pointer to one; the model takes the struct, so the
  pointer is not nil.
\<close>

record 'h Handler =
  Path :: string
  Handler :: "'h option"

text \<open>
  \<^verbatim>\<open>Server\<close>. \<open>'h\<close> is the type of \<^verbatim>\<open>http.Handler\<close> values; a \<^verbatim>\<open>Middleware\<close> is a
  function on them. \<open>cfg\<close> and \<open>srv\<close> are pointers (\<open>None\<close> is nil); \<open>closer\<close> is the
  \<^verbatim>\<open>sync.Once\<close>, \<open>True\<close> once it has fired.
\<close>

record 'h Server =
  cfg :: "Config option"
  logger :: "log_entry list"
  mux :: "(string \<times> 'h) list"
  srv :: "'h http_Server option"
  closer :: bool
  middlewares :: "('h \<Rightarrow> 'h) list"

definition New :: "Config option \<Rightarrow> log_entry list \<Rightarrow> ('h \<Rightarrow> 'h) list \<Rightarrow> 'h Server" where
  "New c l ms =
     \<lparr> cfg = c, logger = l, mux = [], srv = None, closer = False,
       middlewares = ms \<rparr>"

text \<open>
  \<^verbatim>\<open>RegisterHandler\<close> hands the path and the handler to the mux. The result is the
  panic that leaves the call, if any, and the server afterwards.
\<close>

definition RegisterHandler ::
  "mux_rules \<Rightarrow> 'h Server \<Rightarrow> 'h Handler \<Rightarrow> panic option \<times> 'h Server" where
  "RegisterHandler rules s h =
     (case ServeMux_Handle rules (mux s) (Path h) (Handler h) of
        (r, m) \<Rightarrow> (r, s\<lparr>mux := m\<rparr>))"

definition RegisterMiddleware :: "'h Server \<Rightarrow> ('h \<Rightarrow> 'h) \<Rightarrow> 'h Server" where
  "RegisterMiddleware s m = s\<lparr>middlewares := middlewares s @ [m]\<rparr>"

text \<open>
  The loop of \<^verbatim>\<open>applyMiddlewares\<close>, \<^verbatim>\<open>for i := len(s.middlewares) - 1; i >= 0; i--\<close>,
  with the index and the handler built so far as arguments.
\<close>

function applyMiddlewares_loop :: "('h \<Rightarrow> 'h) list \<Rightarrow> int \<Rightarrow> 'h \<Rightarrow> 'h" where
  "applyMiddlewares_loop ms i h =
     (if i \<ge> 0 then applyMiddlewares_loop ms (i - 1) ((ms ! nat i) h) else h)"
  by pat_completeness auto
termination
  by (relation "measure (\<lambda>(ms, i, h). nat (i + 1))") auto

declare applyMiddlewares_loop.simps [simp del]

text \<open>
  \<^verbatim>\<open>applyMiddlewares\<close> starts from the mux taken as an \<^verbatim>\<open>http.Handler\<close>. How
  \<^verbatim>\<open>net/http\<close> serves a request from a registration table is the parameter
  \<open>serve\<close>.
\<close>

definition applyMiddlewares :: "((string \<times> 'h) list \<Rightarrow> 'h) \<Rightarrow> 'h Server \<Rightarrow> 'h" where
  "applyMiddlewares serve s =
     applyMiddlewares_loop (middlewares s) (int (length (middlewares s)) - 1) (serve (mux s))"

text \<open>
  What \<^verbatim>\<open>Stop\<close> takes from its surroundings: the clock reading of
  \<^verbatim>\<open>context.WithTimeout\<close>, and what \<^verbatim>\<open>Shutdown\<close> of the underlying server answers
  (\<open>None\<close> is a nil error).
\<close>

record stop_env =
  now :: int
  Shutdown_result :: "go_error option"

text \<open>
  \<^verbatim>\<open>Stop\<close>. The result is the panic that leaves the call, if any, and the server
  afterwards. \<^verbatim>\<open>sync.Once.Do\<close> marks the guard as fired when the body has returned or
  panicked, and does nothing on later calls. In the body, \<^verbatim>\<open>s.srv.Shutdown(ctx)\<close>
  dereferences \<^verbatim>\<open>s.srv\<close>.
\<close>

definition Stop :: "stop_env \<Rightarrow> 'h Server \<Rightarrow> panic option \<times> 'h Server" where
  "Stop env s =
     (if closer s then (None, s)
      else
        let deadline = now env + 5 * Second in
        case srv s of
          None \<Rightarrow> (Some nil_dereference, s\<lparr>closer := True\<rparr>)
        | Some underlying \<Rightarrow>
            let s1 = s\<lparr>srv := Some (underlying\<lparr>shutdown_deadlines :=
                                    shutdown_deadlines underlying @ [deadline]\<rparr>)\<rparr> in
            case Shutdown_result env of
              Some err \<Rightarrow>
                (None, s1\<lparr>logger := logger s1 @
                            [Error ''HTTP server shutdown error'' [(''error'', ErrorValue err)]],
                          closer := True\<rparr>)
            | None \<Rightarrow>
                (None, s1\<lparr>logger := logger s1 @ [Info ''HTTP server gracefully stopped'' []],
                          closer := True\<rparr>))"


subsection \<open>Start and the tasks around it\<close>

text \<open>
  \<^verbatim>\<open>Start\<close> runs in three tasks' worth of pieces: the caller builds the
  \<^verbatim>\<open>http.Server\<close> and spawns the accept task, the accept task logs and serves, and
  the caller waits for the context before it calls \<^verbatim>\<open>Stop\<close>. Each piece is a
  function on the server; the interleaving is the step function below.

  The caller's first piece: build \<^verbatim>\<open>s.srv\<close>. \<^verbatim>\<open>s.cfg.HTTP\<close> dereferences
  \<^verbatim>\<open>s.cfg\<close>.
\<close>

definition Start_setup :: "((string \<times> 'h) list \<Rightarrow> 'h) \<Rightarrow> 'h Server \<Rightarrow> panic + 'h Server" where
  "Start_setup serve s =
     (case cfg s of
        None \<Rightarrow> Inl nil_dereference
      | Some c \<Rightarrow>
          Inr (s\<lparr>srv := Some \<lparr> Addr = Host (HTTP c) @ '':'' @ decimal (Port (HTTP c)),
                               ServerHandler = applyMiddlewares serve s,
                               ReadHeaderTimeout = DefaultReadHeaderTimeout,
                               shutdown_deadlines = [] \<rparr>\<rparr>))"

text \<open>The accept task before \<^verbatim>\<open>ListenAndServe\<close>: one \<^verbatim>\<open>Info\<close> line with the address.\<close>

definition accept_starting :: "'h Server \<Rightarrow> panic + 'h Server" where
  "accept_starting s =
     (case srv s of
        None \<Rightarrow> Inl nil_dereference
      | Some underlying \<Rightarrow>
          Inr (s\<lparr>logger := logger s @
                   [Info ''Starting HTTP server'' [(''address'', StringValue (Addr underlying))]]\<rparr>))"

text \<open>
  The accept task once \<^verbatim>\<open>ListenAndServe\<close> has returned \<open>err\<close> (it never returns
  nil): an \<^verbatim>\<open>Error\<close> line unless \<^verbatim>\<open>errors.Is(err, http.ErrServerClosed)\<close>.
\<close>

definition accept_returned :: "go_error \<Rightarrow> 'h Server \<Rightarrow> 'h Server" where
  "accept_returned err s =
     (if \<not> errors_Is err ErrServerClosed
      then s\<lparr>logger := logger s @ [Error ''HTTP server error'' [(''error'', ErrorValue err)]]\<rparr>
      else s)"

text \<open>
  Where the task that called \<^verbatim>\<open>Start\<close> is: before the call, blocked on
  \<^verbatim>\<open><-ctx.Done()\<close>, or out of \<^verbatim>\<open>Start\<close> (\<open>Finished None\<close> is a return, \<open>Finished
  (Some p)\<close> a panic). Where the accept task is: not spawned, spawned, inside
  \<^verbatim>\<open>ListenAndServe\<close>, past it, or dead of a panic, which takes the process with it.
\<close>

datatype caller_pc = Not_called | Blocked | Finished "panic option"

datatype accept_pc = Not_spawned | Spawned | Serving | Ended | Crashed panic

record 'h system =
  server :: "'h Server"
  caller :: caller_pc
  acceptor :: accept_pc
  ctx_done :: bool

text \<open>
  What can happen next: the call of \<^verbatim>\<open>Start\<close> up to its wait; the accept task's log
  line; the return of \<^verbatim>\<open>ListenAndServe\<close> with an error; the cancellation of the
  context by its owner; the caller waking up on the cancelled context, calling
  \<^verbatim>\<open>Stop\<close> and leaving \<^verbatim>\<open>Start\<close>; a call of \<^verbatim>\<open>Stop\<close> by any other task.
  A call of \<^verbatim>\<open>Stop\<close> is one step: \<^verbatim>\<open>sync.Once\<close> holds its mutex while the body
  runs, so two calls never overlap. A panic of \<^verbatim>\<open>Stop\<close> in another task stays in
  that task.
\<close>

datatype event =
    Call_Start
  | Accept_logs_start
  | Accept_returns go_error
  | Cancel
  | Unblock stop_env
  | Other_Stop stop_env

fun crashed :: "accept_pc \<Rightarrow> bool" where
  "crashed (Crashed p) = True"
| "crashed _ = False"

fun enabled_step ::
  "((string \<times> 'h) list \<Rightarrow> 'h) \<Rightarrow> event \<Rightarrow> 'h system \<Rightarrow> 'h system option" where
  "enabled_step serve Call_Start t =
     (if caller t = Not_called
      then (case Start_setup serve (server t) of
              Inl p \<Rightarrow> Some (t\<lparr>caller := Finished (Some p)\<rparr>)
            | Inr s \<Rightarrow> Some (t\<lparr>server := s, caller := Blocked, acceptor := Spawned\<rparr>))
      else None)"
| "enabled_step serve Accept_logs_start t =
     (if acceptor t = Spawned
      then (case accept_starting (server t) of
              Inl p \<Rightarrow> Some (t\<lparr>acceptor := Crashed p\<rparr>)
            | Inr s \<Rightarrow> Some (t\<lparr>server := s, acceptor := Serving\<rparr>))
      else None)"
| "enabled_step serve (Accept_returns err) t =
     (if acceptor t = Serving
      then Some (t\<lparr>server := accept_returned err (server t), acceptor := Ended\<rparr>)
      else None)"
| "enabled_step serve Cancel t = Some (t\<lparr>ctx_done := True\<rparr>)"
| "enabled_step serve (Unblock env) t =
     (if caller t = Blocked \<and> ctx_done t
      then (case Stop env (server t) of
              (r, s) \<Rightarrow> Some (t\<lparr>server := s, caller := Finished r\<rparr>))
      else None)"
| "enabled_step serve (Other_Stop env) t =
     Some (t\<lparr>server := snd (Stop env (server t))\<rparr>)"

text \<open>One step; \<open>None\<close> when the event cannot happen in this state.\<close>

definition step ::
  "((string \<times> 'h) list \<Rightarrow> 'h) \<Rightarrow> event \<Rightarrow> 'h system \<Rightarrow> 'h system option" where
  "step serve e t = (if crashed (acceptor t) then None else enabled_step serve e t)"

fun run ::
  "((string \<times> 'h) list \<Rightarrow> 'h) \<Rightarrow> event list \<Rightarrow> 'h system \<Rightarrow> 'h system option" where
  "run serve [] t = Some t"
| "run serve (e # es) t =
     (case step serve e t of None \<Rightarrow> None | Some t' \<Rightarrow> run serve es t')"

text \<open>A server on which \<^verbatim>\<open>Start\<close> has not been called, with a context not yet cancelled.\<close>

definition initial :: "'h Server \<Rightarrow> 'h system" where
  "initial s = \<lparr> server = s, caller = Not_called, acceptor = Not_spawned, ctx_done = False \<rparr>"


subsection \<open>A middleware that leaves a trace\<close>

text \<open>
  To observe the order in which middlewares see a request, a handler is taken to be a
  function on a trace, and \<open>tracing name\<close> is the middleware that writes its name to the
  trace when the request reaches it and then hands the request on.
\<close>

definition tracing :: "string \<Rightarrow> (string list \<Rightarrow> string list) \<Rightarrow> string list \<Rightarrow> string list" where
  "tracing name next = (\<lambda>trace. next (trace @ [name]))"


section \<open>Properties of the worker pool configuration\<close>

text \<open>
  C5. Every strategy name outside \<open>{eager, lazy, balanced}\<close> makes
  \<^verbatim>\<open>ResizerFromString\<close> panic with "invalid resizer name"; no policy is returned in
  its place.
\<close>

theorem ResizerFromString_unknown_panics:
  assumes "name \<notin> {''eager'', ''lazy'', ''balanced''}"
  shows "ResizerFromString pond name w = Inl (Panic ''invalid resizer name'')"
  using assms by (simp add: ResizerFromString_def)

theorem ResizerFromString_unknown_panics_witness:
  "''bogus'' \<notin> {''eager'', ''lazy'', ''balanced''}
   \<and> ResizerFromString (pond_v1 4) ''bogus'' [] = Inl (Panic ''invalid resizer name'')"
proof -
  have h: "''bogus'' \<notin> {''eager'', ''lazy'', ''balanced''}" by simp
  show ?thesis using h ResizerFromString_unknown_panics [OF h] by simp
qed

text \<open>
  C6 as stated fails: building the struct from Go's zero value with only the five listed
  defaults (name, min, max, strategy, queue bound) does not give the value that
  \<^verbatim>\<open>DefaultPoolConfig\<close> returns, because a sixth field is defaulted as well.
\<close>

theorem DefaultPoolConfig_five_defaults_counterexample:
  "DefaultPoolConfig \<noteq>
     PoolConfig_zero \<lparr> Name := ''default'', MinWorkers := 4, MaxWorkers := 32,
                       ResizingStrategy := ''balanced'', MaxQueuedJobs := 100 \<rparr>"
  by (simp add: DefaultPoolConfig_def PoolConfig_zero_def)

text \<open>
  C6, amended. \<^verbatim>\<open>DefaultPoolConfig\<close> returns exactly name "default", Prometheus prefix
  "default", 4 minimum workers, 32 maximum workers, strategy "balanced" and 100 queued
  jobs: six defaults set on top of the zero value, and no field is left out.
\<close>

theorem DefaultPoolConfig_exact:
  "DefaultPoolConfig =
     PoolConfig_zero \<lparr> Name := ''default'', PrometheusPrefix := ''default'',
                       MinWorkers := 4, MaxWorkers := 32,
                       ResizingStrategy := ''balanced'', MaxQueuedJobs := 100 \<rparr>
   \<and> Name DefaultPoolConfig = ''default''
   \<and> MinWorkers DefaultPoolConfig = 4
   \<and> MaxWorkers DefaultPoolConfig = 32
   \<and> ResizingStrategy DefaultPoolConfig = ''balanced''
   \<and> MaxQueuedJobs DefaultPoolConfig = 100"
  by (simp add: DefaultPoolConfig_def PoolConfig_zero_def)






text \<open>
  C10. The configuration returned by \<^verbatim>\<open>DefaultPoolConfig\<close> has its
  \<^verbatim>\<open>PrometheusPrefix\<close> set to "default", which is not the zero value of the field.
\<close>

theorem DefaultPoolConfig_PrometheusPrefix:
  "PrometheusPrefix DefaultPoolConfig = ''default''
   \<and> PrometheusPrefix DefaultPoolConfig \<noteq> PrometheusPrefix PoolConfig_zero"
  by (simp add: DefaultPoolConfig_def PoolConfig_zero_def)


section \<open>Properties of the server\<close>

subsection \<open>Middleware composition\<close>

text \<open>The loop unfolds one iteration at a time, and stops below index 0.\<close>

lemma applyMiddlewares_loop_step:
  "0 \<le> i \<Longrightarrow> applyMiddlewares_loop ms i h = applyMiddlewares_loop ms (i - 1) ((ms ! nat i) h)"
  by (subst applyMiddlewares_loop.simps) simp

lemma applyMiddlewares_loop_exit:
  "i < 0 \<Longrightarrow> applyMiddlewares_loop ms i h = h"
  by (subst applyMiddlewares_loop.simps) simp

lemma applyMiddlewares_loop_foldr:
  "k \<le> length ms \<Longrightarrow>
   applyMiddlewares_loop ms (int k - 1) h = foldr (\<lambda>m h. m h) (take k ms) h"
proof (induction k arbitrary: h)
  case 0
  show ?case by (simp add: applyMiddlewares_loop_exit)
next
  case (Suc k)
  from Suc.prems have le: "k \<le> length ms" and lt: "k < length ms" by simp_all
  have "applyMiddlewares_loop ms (int (Suc k) - 1) h
        = applyMiddlewares_loop ms (int k - 1) ((ms ! k) h)"
    by (subst applyMiddlewares_loop_step) simp_all
  also have "\<dots> = foldr (\<lambda>m h. m h) (take k ms) ((ms ! k) h)"
    by (rule Suc.IH [OF le])
  also have "\<dots> = foldr (\<lambda>m h. m h) (take (Suc k) ms) h"
    using lt by (simp add: take_Suc_conv_app_nth)
  finally show ?case .
qed

lemma applyMiddlewares_foldr:
  "applyMiddlewares serve s = foldr (\<lambda>m h. m h) (middlewares s) (serve (mux s))"
  using applyMiddlewares_loop_foldr [of "length (middlewares s)" "middlewares s" "serve (mux s)"]
  by (simp add: applyMiddlewares_def)

lemma applyMiddlewares_outermost:
  "applyMiddlewares serve (s\<lparr>middlewares := m # ms\<rparr>)
   = m (applyMiddlewares serve (s\<lparr>middlewares := ms\<rparr>))"
  by (simp add: applyMiddlewares_foldr)

text \<open>
  C1, on two tracing middlewares registered one after the other. The handler that
  \<^verbatim>\<open>applyMiddlewares\<close> composes hands a request to the middleware registered first,
  then to the one registered last, then to the mux: the middleware registered first is
  the outermost wrapper, not the one registered last.
\<close>

theorem applyMiddlewares_first_registered_sees_request_first:
  "applyMiddlewares (\<lambda>m trace. trace @ [''mux''])
     (RegisterMiddleware (RegisterMiddleware (New None [] []) (tracing ''first''))
        (tracing ''last'')) []
   = [''first'', ''last'', ''mux'']"
  by (simp add: applyMiddlewares_def RegisterMiddleware_def New_def tracing_def
      applyMiddlewares_loop_step applyMiddlewares_loop_exit)


subsection \<open>Handler registration\<close>

lemma find_append_None:
  "find P xs = None \<Longrightarrow> find P (xs @ ys) = find P ys"
  by (induction xs) (auto split: if_splits)

lemma ServeMux_Handle_success:
  assumes "ServeMux_Handle rules m pattern (Some h) = (None, m')"
  shows "pattern \<noteq> [] \<and> malformed rules pattern = None
         \<and> find (\<lambda>(q, _). conflictsWith rules pattern q) m = None
         \<and> m' = m @ [(pattern, h)]"
  using assms
  by (auto simp: ServeMux_Handle_def split: if_splits option.splits prod.splits)

text \<open>
  C3 as stated fails. On a new server with the mux before Go 1.22, registering a handler
  for \<^verbatim>\<open>/p\<close> succeeds; registering a second handler for \<^verbatim>\<open>/p\<close> panics and leaves
  the first handler in the table.
\<close>

theorem RegisterHandler_twice_counterexample:
  "RegisterHandler ServeMux_before_1_22 (New None [] [])
       \<lparr>Path = ''/p'', Handler = Some (1::nat)\<rparr>
     = (None, (New None [] [])\<lparr>mux := [(''/p'', 1)]\<rparr>)
   \<and> RegisterHandler ServeMux_before_1_22 ((New None [] [])\<lparr>mux := [(''/p'', 1)]\<rparr>)
       \<lparr>Path = ''/p'', Handler = Some (2::nat)\<rparr>
     = (Some (Panic ''http: multiple registrations for /p''),
        (New None [] [])\<lparr>mux := [(''/p'', 1)]\<rparr>)"
  by (simp add: RegisterHandler_def ServeMux_Handle_def ServeMux_before_1_22_def New_def)

text \<open>
  C3, amended. For every mux under which a pattern conflicts with itself, every path
  \<open>p\<close> and every two handlers \<open>h1\<close>, \<open>h2\<close>: when registering \<open>h1\<close> for \<open>p\<close>
  returns without a panic, registering \<open>h2\<close> for \<open>p\<close> afterwards panics with the
  conflict of \<open>p\<close> with itself, the server after the panic is the server before the
  second call, and in it \<open>p\<close> is bound to \<open>h1\<close>.
\<close>

theorem RegisterHandler_same_path_twice:
  assumes "RegisterHandler rules s \<lparr>Path = p, Handler = Some h1\<rparr> = (None, s1)"
    and "conflictsWith rules p p"
  shows "RegisterHandler rules s1 \<lparr>Path = p, Handler = Some h2\<rparr>
           = (Some (Panic (conflict_text rules p p)), s1)
         \<and> map_of (mux (snd (RegisterHandler rules s1 \<lparr>Path = p, Handler = Some h2\<rparr>))) p
           = Some h1"
proof -
  from assms(1) have first: "ServeMux_Handle rules (mux s) p (Some h1) = (None, mux s1)"
    and s1: "s1 = s\<lparr>mux := mux s1\<rparr>"
    by (auto simp: RegisterHandler_def split: prod.splits)
  from ServeMux_Handle_success [OF first]
  have ne: "p \<noteq> []" and wf: "malformed rules p = None"
    and free: "find (\<lambda>(q, _). conflictsWith rules p q) (mux s) = None"
    and m1: "mux s1 = mux s @ [(p, h1)]"
    by simp_all
  have found: "find (\<lambda>(q, _). conflictsWith rules p q) (mux s1) = Some (p, h1)"
    using free assms(2) by (simp add: m1 find_append_None)
  have second: "ServeMux_Handle rules (mux s1) p (Some h2)
                = (Some (Panic (conflict_text rules p p)), mux s1)"
    using ne wf found by (simp add: ServeMux_Handle_def)
  have same: "s1\<lparr>mux := mux s1\<rparr> = s1" by simp
  have call: "RegisterHandler rules s1 \<lparr>Path = p, Handler = Some h2\<rparr>
              = (Some (Panic (conflict_text rules p p)), s1)"
    using second same by (simp add: RegisterHandler_def)
  have unbound: "map_of (mux s) p = None"
  proof (cases "map_of (mux s) p")
    case None
    then show ?thesis .
  next
    case (Some h)
    then have "(p, h) \<in> set (mux s)" by (rule map_of_SomeD)
    with free assms(2) show ?thesis by (auto simp: find_None_iff)
  qed
  have "map_of (mux s1) p = Some h1"
    using unbound by (simp add: m1 map_add_def)
  with call show ?thesis by simp
qed

theorem RegisterHandler_same_path_twice_witness:
  "RegisterHandler ServeMux_before_1_22 (New None [] [])
       \<lparr>Path = ''/p'', Handler = Some (1::nat)\<rparr>
     = (None, (New None [] [])\<lparr>mux := [(''/p'', 1)]\<rparr>)
   \<and> conflictsWith ServeMux_before_1_22 ''/p'' ''/p''
   \<and> RegisterHandler ServeMux_before_1_22 ((New None [] [])\<lparr>mux := [(''/p'', 1)]\<rparr>)
       \<lparr>Path = ''/p'', Handler = Some (2::nat)\<rparr>
     = (Some (Panic (conflict_text ServeMux_before_1_22 ''/p'' ''/p'')),
        (New None [] [])\<lparr>mux := [(''/p'', 1)]\<rparr>)
   \<and> map_of (mux (snd (RegisterHandler ServeMux_before_1_22
                          ((New None [] [])\<lparr>mux := [(''/p'', 1)]\<rparr>)
                          \<lparr>Path = ''/p'', Handler = Some (2::nat)\<rparr>))) ''/p''
     = Some 1"
proof -
  have h1: "RegisterHandler ServeMux_before_1_22 (New None [] [])
              \<lparr>Path = ''/p'', Handler = Some (1::nat)\<rparr>
            = (None, (New None [] [])\<lparr>mux := [(''/p'', 1)]\<rparr>)"
    by (simp add: RegisterHandler_def ServeMux_Handle_def ServeMux_before_1_22_def New_def)
  have h2: "conflictsWith ServeMux_before_1_22 ''/p'' ''/p''"
    by (simp add: ServeMux_before_1_22_def)
  from RegisterHandler_same_path_twice [OF h1 h2, of 2] h1 h2
  show ?thesis by simp
qed


subsection \<open>Stop\<close>

lemma Stop_fired: "closer s \<Longrightarrow> Stop env s = (None, s)"
  by (simp add: Stop_def)

lemma Stop_fires: "closer (snd (Stop env s))"
  by (simp add: Stop_def Let_def split: option.splits)

lemma Stops_fired: "closer s \<Longrightarrow> fold (\<lambda>e t. snd (Stop e t)) envs s = s"
  by (induction envs) (simp_all add: Stop_fired)

lemma Stop_logger:
  "\<exists>new. logger (snd (Stop env s)) = logger s @ new
     \<and> (\<forall>err. Error ''HTTP server error'' [(''error'', ErrorValue err)] \<notin> set new)"
  by (simp add: Stop_def Let_def split: option.splits)

lemma Stop_cfg: "cfg (snd (Stop env s)) = cfg s"
  by (simp add: Stop_def Let_def split: option.splits)

lemma Stop_closer_mono: "closer s \<Longrightarrow> closer (snd (Stop env s))"
  by (simp add: Stop_def)

text \<open>
  C2, on a server that \<^verbatim>\<open>New\<close> has just built and \<^verbatim>\<open>Start\<close> has not touched:
  \<^verbatim>\<open>Stop\<close> leaves with the nil pointer dereference panic of
  \<^verbatim>\<open>s.srv.Shutdown\<close>, whatever the configuration, the logger and the middlewares, and
  the guard is marked as fired.
\<close>

theorem Stop_before_Start_panics:
  "Stop env (New c l ms) = (Some nil_dereference, (New c l ms)\<lparr>closer := True\<rparr>)"
  by (simp add: Stop_def New_def)

text \<open>
  C4. After a first call of \<^verbatim>\<open>Stop\<close>, whatever it did, a further call returns without
  a panic and leaves the server as it was, and so does any sequence of further calls: the
  server after them is the server after the first call, so the shutdown body has run at
  most once.
\<close>

theorem Stop_runs_shutdown_once:
  "Stop env' (snd (Stop env s)) = (None, snd (Stop env s))
   \<and> fold (\<lambda>e t. snd (Stop e t)) (env # envs) s = snd (Stop env s)"
  by (simp add: Stop_fired Stop_fires Stops_fired)

text \<open>
  C8. On a server whose guard has not fired and whose underlying \<^verbatim>\<open>http.Server\<close>
  exists, \<^verbatim>\<open>Stop\<close> asks that server to shut down with a deadline of exactly
  5 000 000 000 ns after the clock reading, appends one log line (the success line when
  \<^verbatim>\<open>Shutdown\<close> answers nil, otherwise the error line carrying the error it
  answered), marks the guard, and returns without a panic in both cases.
\<close>

theorem Stop_shutdown_sequence:
  assumes "\<not> closer s" and "srv s = Some underlying"
  shows "Stop env s =
           (None,
            s\<lparr>srv := Some (underlying\<lparr>shutdown_deadlines :=
                                   shutdown_deadlines underlying @ [now env + 5000000000]\<rparr>),
              logger := logger s @
                [case Shutdown_result env of
                   None \<Rightarrow> Info ''HTTP server gracefully stopped'' []
                 | Some err \<Rightarrow> Error ''HTTP server shutdown error'' [(''error'', ErrorValue err)]],
              closer := True\<rparr>)"
  using assms by (simp add: Stop_def Second_def split: option.splits)

theorem Stop_shutdown_sequence_witness:
  "Stop \<lparr>now = 100, Shutdown_result = Some DeadlineExceeded\<rparr>
     ((New None [] [])\<lparr>srv := Some \<lparr> Addr = ''localhost:8080'', ServerHandler = (),
                                      ReadHeaderTimeout = 10000000000,
                                      shutdown_deadlines = [] \<rparr>\<rparr>)
   = (None,
      \<lparr> cfg = None,
        logger = [Error ''HTTP server shutdown error'' [(''error'', ErrorValue DeadlineExceeded)]],
        mux = [],
        srv = Some \<lparr> Addr = ''localhost:8080'', ServerHandler = (),
                     ReadHeaderTimeout = 10000000000,
                     shutdown_deadlines = [5000000100] \<rparr>,
        closer = True, middlewares = [] \<rparr>)
   \<and> Stop \<lparr>now = 100, Shutdown_result = None\<rparr>
     ((New None [] [])\<lparr>srv := Some \<lparr> Addr = ''localhost:8080'', ServerHandler = (),
                                      ReadHeaderTimeout = 10000000000,
                                      shutdown_deadlines = [] \<rparr>\<rparr>)
   = (None,
      \<lparr> cfg = None,
        logger = [Info ''HTTP server gracefully stopped'' []],
        mux = [],
        srv = Some \<lparr> Addr = ''localhost:8080'', ServerHandler = (),
                     ReadHeaderTimeout = 10000000000,
                     shutdown_deadlines = [5000000100] \<rparr>,
        closer = True, middlewares = [] \<rparr>)"
proof -
  let ?underlying = "\<lparr> Addr = ''localhost:8080'', ServerHandler = (),
                   ReadHeaderTimeout = 10000000000, shutdown_deadlines = [] \<rparr>"
  let ?s = "(New None [] [])\<lparr>srv := Some ?underlying\<rparr>"
  have h1: "\<not> closer ?s" by (simp add: New_def)
  have h2: "srv ?s = Some ?underlying" by simp
  show ?thesis
    using Stop_shutdown_sequence [OF h1 h2, of "\<lparr>now = 100, Shutdown_result = Some DeadlineExceeded\<rparr>"]
      Stop_shutdown_sequence [OF h1 h2, of "\<lparr>now = 100, Shutdown_result = None\<rparr>"]
    by (simp add: New_def)
qed


subsection \<open>Start\<close>

text \<open>Rules that evaluate a concrete run.\<close>

lemma decimal_digit: "n < 10 \<Longrightarrow> decimal n = [''0123456789'' ! n]"
  by (subst decimal.simps) simp

lemma decimal_more:
  "\<not> n < 10 \<Longrightarrow> decimal n = decimal (n div 10) @ [''0123456789'' ! (n mod 10)]"
  by (subst decimal.simps) simp

lemmas run_eval =
  step_def Start_setup_def accept_starting_def accept_returned_def Stop_def initial_def
  New_def Second_def DefaultReadHeaderTimeout_def applyMiddlewares_def
  applyMiddlewares_loop_exit decimal_digit decimal_more

lemma run_append:
  "run serve (es @ es') t =
     (case run serve es t of None \<Rightarrow> None | Some t' \<Rightarrow> run serve es' t')"
  by (induction es arbitrary: t) (auto split: option.splits)

lemma run_snoc:
  "run serve (es @ [e]) t = Some t' \<longleftrightarrow> (\<exists>u. run serve es t = Some u \<and> step serve e u = Some t')"
  by (auto simp: run_append split: option.splits)

lemma step_logger:
  assumes "step serve e t = Some t'"
  shows "\<exists>new. logger (server t') = logger (server t) @ new
     \<and> (\<forall>err. Error ''HTTP server error'' [(''error'', ErrorValue err)] \<in> set new
            \<longrightarrow> \<not> errors_Is err ErrServerClosed)"
proof (cases e)
  case (Unblock env)
  obtain new where "logger (snd (Stop env (server t))) = logger (server t) @ new"
    and "\<forall>err. Error ''HTTP server error'' [(''error'', ErrorValue err)] \<notin> set new"
    using Stop_logger by blast
  with assms Unblock show ?thesis
    by (auto simp: step_def split: if_splits prod.splits)
next
  case (Other_Stop env)
  obtain new where "logger (snd (Stop env (server t))) = logger (server t) @ new"
    and "\<forall>err. Error ''HTTP server error'' [(''error'', ErrorValue err)] \<notin> set new"
    using Stop_logger by blast
  with assms Other_Stop show ?thesis
    by (auto simp: step_def split: if_splits)
qed (use assms in \<open>auto simp: step_def Start_setup_def accept_starting_def accept_returned_def
       split: if_splits option.splits sum.splits\<close>)

lemma run_logger:
  "run serve es t = Some t' \<Longrightarrow>
   \<exists>new. logger (server t') = logger (server t) @ new
     \<and> (\<forall>err. Error ''HTTP server error'' [(''error'', ErrorValue err)] \<in> set new
            \<longrightarrow> \<not> errors_Is err ErrServerClosed)"
proof (induction es arbitrary: t)
  case Nil
  then show ?case by simp
next
  case (Cons e es)
  then obtain u where u: "step serve e t = Some u" and r: "run serve es u = Some t'"
    by (auto split: option.splits)
  from step_logger [OF u] obtain n1 where
    n1: "logger (server u) = logger (server t) @ n1"
        "\<forall>err. Error ''HTTP server error'' [(''error'', ErrorValue err)] \<in> set n1
            \<longrightarrow> \<not> errors_Is err ErrServerClosed"
    by blast
  from Cons.IH [OF r] obtain n2 where
    n2: "logger (server t') = logger (server u) @ n2"
        "\<forall>err. Error ''HTTP server error'' [(''error'', ErrorValue err)] \<in> set n2
            \<longrightarrow> \<not> errors_Is err ErrServerClosed"
    by blast
  have "logger (server t') = logger (server t) @ (n1 @ n2)"
    using n1(1) n2(1) by simp
  moreover have "\<forall>err. Error ''HTTP server error'' [(''error'', ErrorValue err)] \<in> set (n1 @ n2)
            \<longrightarrow> \<not> errors_Is err ErrServerClosed"
    using n1(2) n2(2) by auto
  ultimately show ?case by blast
qed

lemma step_ctx_done:
  "step serve e t = Some t' \<Longrightarrow> ctx_done t' = (ctx_done t \<or> e = Cancel)"
  by (cases e) (auto simp: step_def split: if_splits sum.splits prod.splits)

lemma run_ctx_done:
  "run serve es t = Some t' \<Longrightarrow> ctx_done t' = (ctx_done t \<or> Cancel \<in> set es)"
proof (induction es arbitrary: t)
  case Nil
  then show ?case by simp
next
  case (Cons e es)
  then obtain u where u: "step serve e t = Some u" and r: "run serve es u = Some t'"
    by (auto split: option.splits)
  show ?case using step_ctx_done [OF u] Cons.IH [OF r] by auto
qed

lemma Start_setup_closer:
  "Start_setup serve s = Inr s' \<Longrightarrow> closer s' = closer s \<and> cfg s' = cfg s"
  by (auto simp: Start_setup_def split: option.splits)

lemma accept_starting_closer:
  "accept_starting s = Inr s' \<Longrightarrow> closer s' = closer s \<and> cfg s' = cfg s"
  by (auto simp: accept_starting_def split: option.splits)

lemma accept_returned_closer:
  "closer (accept_returned err s) = closer s \<and> cfg (accept_returned err s) = cfg s"
  by (simp add: accept_returned_def)

lemma step_cfg:
  assumes "step serve e t = Some t'"
  shows "cfg (server t') = cfg (server t)"
proof (cases e)
  case (Unblock env)
  have "cfg (snd (Stop env (server t))) = cfg (server t)" by (rule Stop_cfg)
  with assms Unblock show ?thesis
    by (auto simp: step_def split: if_splits prod.splits)
qed (use assms in \<open>auto simp: step_def Stop_cfg accept_returned_closer
       dest: Start_setup_closer accept_starting_closer
       split: if_splits sum.splits\<close>)

lemma step_returned:
  assumes "step serve e t = Some t'"
    and "caller t = Finished None \<longrightarrow> ctx_done t \<and> closer (server t)"
  shows "caller t' = Finished None \<longrightarrow> ctx_done t' \<and> closer (server t')"
proof (cases e)
  case (Unblock env)
  have "closer (snd (Stop env (server t)))" by (rule Stop_fires)
  with assms Unblock show ?thesis
    by (auto simp: step_def split: if_splits prod.splits)
next
  case (Other_Stop env)
  with assms show ?thesis
    by (auto simp: step_def Stop_closer_mono split: if_splits)
qed (use assms in \<open>auto simp: step_def accept_returned_closer
       dest: Start_setup_closer accept_starting_closer
       split: if_splits sum.splits\<close>)

lemma run_returned:
  "run serve es t = Some t' \<Longrightarrow>
   (caller t = Finished None \<longrightarrow> ctx_done t \<and> closer (server t)) \<Longrightarrow>
   (caller t' = Finished None \<longrightarrow> ctx_done t' \<and> closer (server t'))"
proof (induction es arbitrary: t)
  case Nil
  then show ?case by simp
next
  case (Cons e es)
  then obtain u where u: "step serve e t = Some u" and r: "run serve es u = Some t'"
    by (auto split: option.splits)
  show ?case
    by (rule Cons.IH [OF r]) (rule step_returned [OF u Cons.prems(2)])
qed

lemma step_keeps_entry:
  "step serve e t = Some t' \<Longrightarrow> x \<in> set (logger (server t)) \<Longrightarrow> x \<in> set (logger (server t'))"
  using step_logger [of serve e t t'] by auto

lemma step_logs_error:
  "step serve (Accept_returns err) t = Some t' \<Longrightarrow> \<not> errors_Is err ErrServerClosed \<Longrightarrow>
   Error ''HTTP server error'' [(''error'', ErrorValue err)] \<in> set (logger (server t'))"
  by (auto simp: step_def accept_returned_def split: if_splits)

lemma run_logs_error:
  "run serve es t = Some t' \<Longrightarrow> \<not> errors_Is err ErrServerClosed \<Longrightarrow>
   Error ''HTTP server error'' [(''error'', ErrorValue err)] \<in> set (logger (server t))
     \<or> Accept_returns err \<in> set es \<Longrightarrow>
   Error ''HTTP server error'' [(''error'', ErrorValue err)] \<in> set (logger (server t'))"
proof (induction es arbitrary: t)
  case Nil
  then show ?case by simp
next
  case (Cons e es)
  then obtain u where u: "step serve e t = Some u" and r: "run serve es u = Some t'"
    by (auto split: option.splits)
  have "Error ''HTTP server error'' [(''error'', ErrorValue err)] \<in> set (logger (server u))
     \<or> Accept_returns err \<in> set es"
    using Cons.prems(2,3) u step_keeps_entry [OF u] step_logs_error [of serve err t u]
    by auto
  then show ?case by (rule Cons.IH [OF r Cons.prems(2)])
qed

lemma run_blocked:
  "run serve es (initial s) = Some t \<Longrightarrow> cfg s \<noteq> None \<Longrightarrow> Cancel \<notin> set es \<Longrightarrow>
   caller t = (if Call_Start \<in> set es then Blocked else Not_called)
   \<and> cfg (server t) = cfg s \<and> \<not> ctx_done t"
proof (induction es arbitrary: t rule: rev_induct)
  case Nil
  then show ?case by (auto simp: initial_def)
next
  case (snoc e es)
  from snoc.prems(1) obtain u where u: "run serve es (initial s) = Some u"
    and st: "step serve e u = Some t"
    by (auto simp: run_snoc)
  from snoc.prems(3) have nc: "Cancel \<notin> set es" and ne: "e \<noteq> Cancel" by auto
  from snoc.IH [OF u snoc.prems(2) nc]
  have ih: "caller u = (if Call_Start \<in> set es then Blocked else Not_called)"
    "cfg (server u) = cfg s" "\<not> ctx_done u" by simp_all
  have c: "cfg (server t) = cfg s" using step_cfg [OF st] ih(2) by simp
  have d: "\<not> ctx_done t" using step_ctx_done [OF st] ih(3) ne by simp
  have "caller t = (if Call_Start \<in> set (es @ [e]) then Blocked else Not_called)"
    using st ih snoc.prems(2) ne
    by (cases e) (auto simp: step_def Start_setup_def split: if_splits sum.splits option.splits prod.splits)
  with c d show ?case by simp
qed

text \<open>
  C9. Take any schedule of events that runs from a server on which \<^verbatim>\<open>Start\<close> has
  not been called and whose context is not cancelled. Then: if \<^verbatim>\<open>Start\<close> has
  returned, the context was cancelled and \<^verbatim>\<open>Stop\<close> has run; if \<^verbatim>\<open>Start\<close> was
  called with a configuration and the context was never cancelled, \<^verbatim>\<open>Start\<close> is
  still blocked, whatever the accept loop returned and whoever else called \<^verbatim>\<open>Stop\<close>;
  every error that the accept loop returned and that is not the intentional-close error
  is in the log as an "HTTP server error" line; and no "HTTP server error" line written
  during the run carries the intentional-close error.
\<close>

theorem Start_blocks_until_cancelled:
  assumes "run serve es (initial s) = Some t"
  shows "(caller t = Finished None \<longrightarrow> Cancel \<in> set es \<and> closer (server t))
       \<and> (cfg s \<noteq> None \<and> Call_Start \<in> set es \<and> Cancel \<notin> set es \<longrightarrow> caller t = Blocked)
       \<and> (\<forall>err. Accept_returns err \<in> set es \<and> \<not> errors_Is err ErrServerClosed \<longrightarrow>
             Error ''HTTP server error'' [(''error'', ErrorValue err)] \<in> set (logger (server t)))
       \<and> (\<forall>err. Error ''HTTP server error'' [(''error'', ErrorValue err)]
                   \<in> set (drop (length (logger s)) (logger (server t))) \<longrightarrow>
             \<not> errors_Is err ErrServerClosed)"
proof -
  have a: "caller t = Finished None \<longrightarrow> ctx_done t \<and> closer (server t)"
    by (rule run_returned [OF assms]) (simp add: initial_def)
  have b: "ctx_done t = (Cancel \<in> set es)"
    using run_ctx_done [OF assms] by (simp add: initial_def)
  have c: "cfg s \<noteq> None \<and> Call_Start \<in> set es \<and> Cancel \<notin> set es \<longrightarrow> caller t = Blocked"
    using run_blocked [OF assms] by simp
  have d: "\<forall>err. Accept_returns err \<in> set es \<and> \<not> errors_Is err ErrServerClosed \<longrightarrow>
             Error ''HTTP server error'' [(''error'', ErrorValue err)] \<in> set (logger (server t))"
    using run_logs_error [OF assms] by blast
  obtain new where n: "logger (server t) = logger s @ new"
    "\<forall>err. Error ''HTTP server error'' [(''error'', ErrorValue err)] \<in> set new
            \<longrightarrow> \<not> errors_Is err ErrServerClosed"
    using run_logger [OF assms] by (auto simp: initial_def)
  have e: "\<forall>err. Error ''HTTP server error'' [(''error'', ErrorValue err)]
                   \<in> set (drop (length (logger s)) (logger (server t))) \<longrightarrow>
             \<not> errors_Is err ErrServerClosed"
    using n by simp
  from a b c d e show ?thesis by blast
qed

theorem Start_blocks_until_cancelled_witness:
  "run (\<lambda>m. ())
     [Call_Start, Accept_logs_start,
      Accept_returns (ErrorString ''bind: address already in use''),
      Other_Stop \<lparr>now = 100, Shutdown_result = None\<rparr>]
     (initial (New (Some \<lparr>HTTP = \<lparr>Host = ''localhost'', Port = 8080\<rparr>\<rparr>) [] []))
   = Some \<lparr> server =
             \<lparr> cfg = Some \<lparr>HTTP = \<lparr>Host = ''localhost'', Port = 8080\<rparr>\<rparr>,
               logger =
                 [Info ''Starting HTTP server'' [(''address'', StringValue ''localhost:8080'')],
                  Error ''HTTP server error''
                    [(''error'', ErrorValue (ErrorString ''bind: address already in use''))],
                  Info ''HTTP server gracefully stopped'' []],
               mux = [],
               srv = Some \<lparr> Addr = ''localhost:8080'', ServerHandler = (),
                            ReadHeaderTimeout = 10000000000,
                            shutdown_deadlines = [5000000100] \<rparr>,
               closer = True, middlewares = [] \<rparr>,
            caller = Blocked, acceptor = Ended, ctx_done = False \<rparr>
   \<and> run (\<lambda>m. ())
     [Call_Start, Accept_logs_start, Accept_returns ErrServerClosed, Cancel,
      Unblock \<lparr>now = 100, Shutdown_result = Some DeadlineExceeded\<rparr>]
     (initial (New (Some \<lparr>HTTP = \<lparr>Host = ''localhost'', Port = 8080\<rparr>\<rparr>) [] []))
   = Some \<lparr> server =
             \<lparr> cfg = Some \<lparr>HTTP = \<lparr>Host = ''localhost'', Port = 8080\<rparr>\<rparr>,
               logger =
                 [Info ''Starting HTTP server'' [(''address'', StringValue ''localhost:8080'')],
                  Error ''HTTP server shutdown error''
                    [(''error'', ErrorValue DeadlineExceeded)]],
               mux = [],
               srv = Some \<lparr> Addr = ''localhost:8080'', ServerHandler = (),
                            ReadHeaderTimeout = 10000000000,
                            shutdown_deadlines = [5000000100] \<rparr>,
               closer = True, middlewares = [] \<rparr>,
            caller = Finished None, acceptor = Ended, ctx_done = True \<rparr>"
  (is "?r1 = Some ?t1 \<and> ?r2 = Some ?t2")
proof -
  have h1: "?r1 = Some ?t1" by (simp add: run_eval)
  have h2: "?r2 = Some ?t2" by (simp add: run_eval)
  from Start_blocks_until_cancelled [OF h1] Start_blocks_until_cancelled [OF h2] h1 h2
  show ?thesis by simp
qed

end
